theory Spec2Isabelle
  imports Main
begin

section \<open>The browser logger of lib/logger/browser.js\<close>

text \<open>
  The module exports a factory: given initial options and an optional Raven client it
  returns a class \<open>Logger\<close> whose static fields \<open>_level\<close>, \<open>_silent\<close> and
  \<open>_shouldLogReplicants\<close> are shared by every instance. The methods of an instance
  write to the host console and, for \<open>error\<close>, to Raven. Both are external: the model
  records every call made to them, in order, as a list of effects, and takes
  \<open>console[c].apply\<close> and \<open>captureException\<close> to return normally. The one call
  that cannot return is \<open>console(logMessage)\<close>: \<open>console\<close> is an object and not a
  function, so the call raises a \<open>TypeError\<close>, which ends the method that made it.
  A method therefore yields either the error or the list of its effects. No method
  changes the static fields; only \<open>_configure\<close> does.
\<close>

subsection \<open>JavaScript values and numbers\<close>

text \<open>
  The values handed to a logging method are opaque to the logger, except for the
  \<open>typeof\<close> test in \<open>error\<close>. Objects and functions are references.
\<close>

datatype jsval =
    JUndefined
  | JNull
  | JBool bool
  | JNum int
  | JStr string
  | JObject nat
  | JFunction nat

fun typeof :: "jsval \<Rightarrow> string" where
  "typeof JUndefined = ''undefined''"
| "typeof JNull = ''object''"
| "typeof (JBool b) = ''boolean''"
| "typeof (JNum n) = ''number''"
| "typeof (JStr s) = ''string''"
| "typeof (JObject r) = ''object''"
| "typeof (JFunction r) = ''function''"

text \<open>
  The numbers that the level table holds, and what a failed lookup converts to:
  \<open>LOG_LEVELS[k]\<close> for a key that is not an own property is \<open>undefined\<close> or a member
  inherited from \<open>Object.prototype\<close>, and the relational operator converts either to
  \<open>NaN\<close>. \<open>gt a b\<close> is JavaScript's \<open>a > b\<close> on these numbers.
\<close>

datatype number = Num nat | Infinity | NaN

fun gt :: "number \<Rightarrow> number \<Rightarrow> bool" where
  "gt NaN b = False"
| "gt a NaN = False"
| "gt Infinity Infinity = False"
| "gt Infinity (Num b) = True"
| "gt (Num a) Infinity = False"
| "gt (Num a) (Num b) = (b < a)"

definition LOG_LEVELS :: "(string \<times> number) list" where
  "LOG_LEVELS =
    [(''trace'', Num 0),
     (''debug'', Num 1),
     (''info'', Num 2),
     (''warn'', Num 3),
     (''error'', Num 4),
     (''_infinite'', Infinity)]"

definition LOG_LEVELS_at :: "string \<Rightarrow> number" where
  "LOG_LEVELS_at k = (case map_of LOG_LEVELS k of Some n \<Rightarrow> n | None \<Rightarrow> NaN)"

subsection \<open>Host, shared state, instances and effects\<close>

record inspect_opts =
  depth :: "nat option"
  showProxy :: bool

text \<open>
  What the host supplies at a call: the \<open>stack\<close> of a fresh \<open>Error\<close> (absent in some
  engines), whether \<open>console.log.apply\<close> is truthy, and the two functions of Node's
  \<open>util\<close> module, which are not part of this repository.
\<close>

record host =
  Error_stack :: "string option"
  console_log_apply :: bool
  inspect :: "jsval \<Rightarrow> inspect_opts \<Rightarrow> string"
  format :: "jsval list \<Rightarrow> string"

text \<open>
  The static fields of the class together with the Raven client captured by the
  closure (\<open>None\<close> when the factory was called without one).
\<close>

record facade =
  Logger_level :: string
  Logger_silent :: bool
  Logger_shouldLogReplicants :: bool
  Raven :: "nat option"

record Logger =
  name :: string

datatype effect =
    ConsoleApply string "jsval list"
  | CaptureException nat string string

text \<open>
  \<open>ConsoleApply c m\<close> is \<open>console[c].apply(console, m)\<close> and
  \<open>CaptureException r s t\<close> is \<open>r.captureException(new Error(s), {logger: t})\<close>.
\<close>

datatype error = TypeError

text \<open>The effects a method has made when it ends; a raise in these methods comes before any.\<close>

definition effects_of :: "error + effect list \<Rightarrow> effect list" where
  "effects_of r = (case r of Inl e \<Rightarrow> [] | Inr es \<Rightarrow> es)"

fun is_sink :: "effect \<Rightarrow> bool" where
  "is_sink (ConsoleApply c m) = True"
| "is_sink (CaptureException r s t) = False"

fun is_capture :: "effect \<Rightarrow> bool" where
  "is_capture (CaptureException r s t) = True"
| "is_capture e = False"

definition sink_calls :: "effect list \<Rightarrow> effect list" where
  "sink_calls es = filter is_sink es"

definition captures :: "effect list \<Rightarrow> effect list" where
  "captures es = filter is_capture es"

subsection \<open>The caller line\<close>

text \<open>\<open>split_on c s\<close> is \<open>s.split(c)\<close> for a one-character separator.\<close>

fun split_on :: "char \<Rightarrow> string \<Rightarrow> string list" where
  "split_on sep [] = [[]]"
| "split_on sep (c # cs) =
    (if c = sep then [] # split_on sep cs
     else (case split_on sep cs of l # ls \<Rightarrow> (c # l) # ls | [] \<Rightarrow> [[c]]))"

text \<open>\<open>join sep ls\<close> is \<open>ls.join(sep)\<close>, the inverse of splitting.\<close>

fun join :: "char \<Rightarrow> string list \<Rightarrow> string" where
  "join sep [] = []"
| "join sep [l] = l"
| "join sep (l # m # ls) = l @ sep # join sep (m # ls)"

text \<open>
  \<open>replace_indented lit s\<close> is \<open>s.replace(/^ *lit/, '')\<close> for a literal \<open>lit\<close> that does
  not begin with a space: the spaces at the start are skipped, and if \<open>lit\<close> follows,
  everything up to its end is removed; otherwise the string is left as it is.
\<close>

definition replace_indented :: "string \<Rightarrow> string \<Rightarrow> string" where
  "replace_indented lit s =
    (let r = dropWhile (\<lambda>c. c = CHR '' '') s
     in if take (length lit) r = lit then drop (length lit) r else s)"

definition caller_of :: "string option \<Rightarrow> string" where
  "caller_of stack =
    (let stackTrace = split_on (CHR 0x0A) (case stack of None \<Rightarrow> [] | Some s \<Rightarrow> s);
         caller = (if 4 \<le> length stackTrace then stackTrace ! 3 else []);
         caller = replace_indented ''at '' caller;
         caller = replace_indented ''@'' caller
     in caller)"

subsection \<open>The methods of a Logger instance\<close>

definition Logger_invoke ::
  "host \<Rightarrow> Logger \<Rightarrow> string \<Rightarrow> jsval list \<Rightarrow> string option \<Rightarrow> error + effect list" where
  "Logger_invoke h this logLevel args prefix =
    (let prefix = (case prefix of None \<Rightarrow> ''['' @ name this @ '']'' | Some p \<Rightarrow> p);
         caller = caller_of (Error_stack h);
         logMessage = [JStr prefix] @ (args @ [JStr caller])
     in if console_log_apply h then Inr [ConsoleApply logLevel logMessage]
        else Inl TypeError)"

definition Logger_trace ::
  "host \<Rightarrow> facade \<Rightarrow> Logger \<Rightarrow> jsval list \<Rightarrow> error + effect list" where
  "Logger_trace h L this args =
    (if Logger_silent L then Inr []
     else if gt (LOG_LEVELS_at (Logger_level L)) (LOG_LEVELS_at ''trace'') then Inr []
     else Logger_invoke h this ''info'' args None)"

definition Logger_debug ::
  "host \<Rightarrow> facade \<Rightarrow> Logger \<Rightarrow> jsval list \<Rightarrow> error + effect list" where
  "Logger_debug h L this args =
    (if Logger_silent L then Inr []
     else if gt (LOG_LEVELS_at (Logger_level L)) (LOG_LEVELS_at ''debug'') then Inr []
     else Logger_invoke h this ''info'' args None)"

definition Logger_info ::
  "host \<Rightarrow> facade \<Rightarrow> Logger \<Rightarrow> jsval list \<Rightarrow> error + effect list" where
  "Logger_info h L this args =
    (if Logger_silent L then Inr []
     else if gt (LOG_LEVELS_at (Logger_level L)) (LOG_LEVELS_at ''info'') then Inr []
     else Logger_invoke h this ''info'' args None)"

definition Logger_warn ::
  "host \<Rightarrow> facade \<Rightarrow> Logger \<Rightarrow> jsval list \<Rightarrow> error + effect list" where
  "Logger_warn h L this args =
    (if Logger_silent L then Inr []
     else if gt (LOG_LEVELS_at (Logger_level L)) (LOG_LEVELS_at ''warn'') then Inr []
     else Logger_invoke h this ''warn'' args None)"

definition formattedArgs :: "host \<Rightarrow> jsval list \<Rightarrow> jsval list" where
  "formattedArgs h args =
    map (\<lambda>argument.
          if typeof argument = ''object''
          then JStr (inspect h argument \<lparr>depth = None, showProxy = True\<rparr>)
          else argument) args"

text \<open>
  In \<open>error\<close> the Raven block comes after the call of \<open>_invoke\<close>: when that call
  raises, the block is not reached.
\<close>

definition Logger_error ::
  "host \<Rightarrow> facade \<Rightarrow> Logger \<Rightarrow> jsval list \<Rightarrow> error + effect list" where
  "Logger_error h L this args =
    (if Logger_silent L then Inr []
     else if gt (LOG_LEVELS_at (Logger_level L)) (LOG_LEVELS_at ''error'') then Inr []
     else (case Logger_invoke h this ''error'' args None of
             Inl e \<Rightarrow> Inl e
           | Inr logged \<Rightarrow>
               Inr (logged @
                 (case Raven L of
                    None \<Rightarrow> []
                  | Some r \<Rightarrow>
                      [CaptureException r
                         (format h (JStr (''['' @ name this @ '']'') # formattedArgs h args))
                         ''client @nodecg/logger'']))))"

definition Logger_replicants ::
  "host \<Rightarrow> facade \<Rightarrow> Logger \<Rightarrow> jsval list \<Rightarrow> error + effect list" where
  "Logger_replicants h L this args =
    (if Logger_silent L then Inr []
     else if \<not> Logger_shouldLogReplicants L then Inr []
     else Logger_invoke h this ''info'' args None)"

subsection \<open>Configuration\<close>

record console_opts =
  enabled :: "bool option"
  level :: "string option"

record opts =
  console :: "console_opts option"
  replicants :: "bool option"

text \<open>
  An absent property, an absent \<open>console\<close> object and an absent options object are
  \<open>None\<close>; \<open>x || {}\<close> replaces the last two by an object without properties.
\<close>

definition or_empty_console :: "console_opts option \<Rightarrow> console_opts" where
  "or_empty_console c = (case c of None \<Rightarrow> \<lparr>enabled = None, level = None\<rparr> | Some x \<Rightarrow> x)"

definition or_empty_opts :: "opts option \<Rightarrow> opts" where
  "or_empty_opts p = (case p of None \<Rightarrow> \<lparr>console = None, replicants = None\<rparr> | Some x \<Rightarrow> x)"

definition configure :: "opts option \<Rightarrow> facade \<Rightarrow> facade" where
  "configure p L =
    (let opts = or_empty_opts p;
         opts = opts\<lparr>console := Some (or_empty_console (console opts))\<rparr>;
         c = or_empty_console (console opts);
         L = (case enabled c of None \<Rightarrow> L | Some e \<Rightarrow> L\<lparr>Logger_silent := \<not> e\<rparr>);
         L = (case level c of None \<Rightarrow> L | Some l \<Rightarrow> L\<lparr>Logger_level := l\<rparr>);
         L = (case replicants opts of None \<Rightarrow> L
              | Some b \<Rightarrow> L\<lparr>Logger_shouldLogReplicants := b\<rparr>)
     in L)"

definition globalReconfigure :: "opts option \<Rightarrow> facade \<Rightarrow> facade" where
  "globalReconfigure p L = configure p L"

definition module_exports :: "opts option \<Rightarrow> nat option \<Rightarrow> facade" where
  "module_exports initialOpts raven =
    (let initialOpts = or_empty_opts initialOpts;
         initialOpts = initialOpts\<lparr>console := Some (or_empty_console (console initialOpts))\<rparr>;
         L = \<lparr>Logger_level = ''info'', Logger_silent = True,
              Logger_shouldLogReplicants = False, Raven = raven\<rparr>
     in configure (Some initialOpts) L)"

subsection \<open>The severity levels as the specification names them\<close>

text \<open>
  The ordered enumeration of the data model: trace, debug, info, warn, error, and the
  sentinel above all of them, with strictly increasing ranks.
\<close>

datatype severity = Trace | Debug | Info | Warn | Error | Sentinel


fun level_name :: "severity \<Rightarrow> string" where
  "level_name Trace = ''trace''"
| "level_name Debug = ''debug''"
| "level_name Info = ''info''"
| "level_name Warn = ''warn''"
| "level_name Error = ''error''"
| "level_name Sentinel = ''_infinite''"

text \<open>The five leveled methods, so that a statement can range over all of them.\<close>

datatype leveled_method = M_trace | M_debug | M_info | M_warn | M_error

fun method_level :: "leveled_method \<Rightarrow> severity" where
  "method_level M_trace = Trace"
| "method_level M_debug = Debug"
| "method_level M_info = Info"
| "method_level M_warn = Warn"
| "method_level M_error = Error"

fun Logger_call ::
  "leveled_method \<Rightarrow> host \<Rightarrow> facade \<Rightarrow> Logger \<Rightarrow> jsval list \<Rightarrow> error + effect list" where
  "Logger_call M_trace = Logger_trace"
| "Logger_call M_debug = Logger_debug"
| "Logger_call M_info = Logger_info"
| "Logger_call M_warn = Logger_warn"
| "Logger_call M_error = Logger_error"

text \<open>
  Concrete inputs for evaluating calls: a stack of the shape Chrome prints and one of
  the shape Firefox prints, a host whose console dispatches variadically and the same
  host without \<open>console.log.apply\<close>, a logger and two option values. \<open>show_val\<close>
  stands in for the rendering of \<open>util\<close>; no general statement below depends on it.
\<close>

fun show_val :: "jsval \<Rightarrow> string" where
  "show_val (JStr s) = s"
| "show_val JNull = ''null''"
| "show_val JUndefined = ''undefined''"
| "show_val (JBool b) = (if b then ''true'' else ''false'')"
| "show_val (JNum n) = ''<number>''"
| "show_val (JObject r) = ''{...}''"
| "show_val (JFunction r) = ''[Function]''"

definition chrome_stack :: string where
  "chrome_stack =
     ''Error'' @ [CHR 0x0A] @
     ''    at Logger._invoke (a.js:57:23)'' @ [CHR 0x0A] @
     ''    at Logger.warn (a.js:119:9)'' @ [CHR 0x0A] @
     ''    at main (app.js:7:5)''"

definition firefox_stack :: string where
  "firefox_stack =
     ''_invoke@a.js:57:23'' @ [CHR 0x0A] @
     ''warn@a.js:119:9'' @ [CHR 0x0A] @
     ''main@app.js:7:5'' @ [CHR 0x0A] @
     ''@app.js:30:1'' @ [CHR 0x0A]"

definition chrome_host :: host where
  "chrome_host =
    \<lparr>Error_stack = Some chrome_stack,
      console_log_apply = True,
      inspect = (\<lambda>v opts. show_val v),
      format = (\<lambda>vs. join (CHR '' '') (map show_val vs))\<rparr>"

definition legacy_host :: host where
  "legacy_host = chrome_host\<lparr>console_log_apply := False\<rparr>"

definition db_logger :: Logger where
  "db_logger = \<lparr>name = ''db''\<rparr>"

definition replicant_opts :: opts where
  "replicant_opts =
    \<lparr>console = Some \<lparr>enabled = Some True, level = None\<rparr>, replicants = Some True\<rparr>"

definition level_opts :: "bool \<Rightarrow> string \<Rightarrow> opts" where
  "level_opts e l = \<lparr>console = Some \<lparr>enabled = Some e, level = Some l\<rparr>, replicants = None\<rparr>"

text \<open>What an options value supplies for each of the three fields, if anything.\<close>

definition opt_enabled :: "opts option \<Rightarrow> bool option" where
  "opt_enabled p =
    (case p of None \<Rightarrow> None
     | Some x \<Rightarrow> (case console x of None \<Rightarrow> None | Some c \<Rightarrow> enabled c))"

definition opt_level :: "opts option \<Rightarrow> string option" where
  "opt_level p =
    (case p of None \<Rightarrow> None
     | Some x \<Rightarrow> (case console x of None \<Rightarrow> None | Some c \<Rightarrow> level c))"

definition opt_replicants :: "opts option \<Rightarrow> bool option" where
  "opt_replicants p = (case p of None \<Rightarrow> None | Some x \<Rightarrow> replicants x)"

text \<open>The channel a sink invocation goes to, and the sequence it carries.\<close>

fun channel_of :: "effect \<Rightarrow> string option" where
  "channel_of (ConsoleApply c m) = Some c"
| "channel_of (CaptureException r s t) = None"


text \<open>
  Whether the two guards of a leveled method let a call through: console output is
  enabled and the rank of the current level is not greater than the method's own.
\<close>

definition admits :: "facade \<Rightarrow> leveled_method \<Rightarrow> bool" where
  "admits L m =
    (\<not> Logger_silent L \<and>
     \<not> gt (LOG_LEVELS_at (Logger_level L)) (LOG_LEVELS_at (level_name (method_level m))))"

text \<open>The channel the specification assigns to each method.\<close>

fun spec_channel :: "leveled_method \<Rightarrow> string" where
  "spec_channel M_trace = ''info''"
| "spec_channel M_debug = ''info''"
| "spec_channel M_info = ''info''"
| "spec_channel M_warn = ''warn''"
| "spec_channel M_error = ''error''"

section \<open>Theorems\<close>

subsection \<open>Unfolding and evaluation\<close>

lemmas method_defs =
  Logger_trace_def Logger_debug_def Logger_info_def Logger_warn_def Logger_error_def

lemmas init_defs =
  module_exports_def configure_def level_opts_def or_empty_opts_def or_empty_console_def

lemmas run_defs =
  LOG_LEVELS_at_def LOG_LEVELS_def Logger_invoke_def chrome_host_def
  chrome_stack_def db_logger_def caller_of_def replace_indented_def
  sink_calls_def captures_def formattedArgs_def effects_of_def

lemma effects_of_simps [simp]:
  "effects_of (Inr es) = es"
  "effects_of (Inl e) = []"
  by (simp_all add: effects_of_def)

lemma sink_calls_simps [simp]:
  "sink_calls [] = []"
  "sink_calls (ConsoleApply c m # es) = ConsoleApply c m # sink_calls es"
  "sink_calls (CaptureException r s t # es) = sink_calls es"
  by (simp_all add: sink_calls_def)

lemma captures_simps [simp]:
  "captures [] = []"
  "captures (ConsoleApply c m # es) = captures es"
  "captures (CaptureException r s t # es) = CaptureException r s t # captures es"
  by (simp_all add: captures_def)

lemma invoke_variadic:
  "console_log_apply h \<Longrightarrow>
   Logger_invoke h this c args None =
     Inr [ConsoleApply c
        ([JStr (''['' @ name this @ '']'')] @ args @ [JStr (caller_of (Error_stack h))])]"
  by (simp add: Logger_invoke_def)

lemma invoke_fallback:
  "\<not> console_log_apply h \<Longrightarrow> Logger_invoke h this c args p = Inl TypeError"
  by (simp add: Logger_invoke_def)

lemma invoke_not_suppressed [simp]: "Logger_invoke h this c args p \<noteq> Inr []"
  by (simp add: Logger_invoke_def Let_def)

lemma chrome_caller: "caller_of (Error_stack chrome_host) = ''main (app.js:7:5)''"
  by (simp add: run_defs)

lemma chrome_apply: "console_log_apply chrome_host"
  by (simp add: chrome_host_def)

text \<open>
  On a host whose \<open>console.log\<close> has no \<open>apply\<close>, a call that passes its guards
  raises, and \<open>error\<close> then does not reach Raven.
\<close>

lemma legacy_error_raises:
  "Logger_error legacy_host (module_exports (Some (level_opts True ''info'')) (Some 7))
     db_logger [JStr ''boom''] = Inl TypeError"
  by (simp add: init_defs Logger_error_def run_defs legacy_host_def)

subsection \<open>The level table\<close>

lemma LOG_LEVELS_at_own:
  "LOG_LEVELS_at ''trace'' = Num 0"
  "LOG_LEVELS_at ''debug'' = Num 1"
  "LOG_LEVELS_at ''info'' = Num 2"
  "LOG_LEVELS_at ''warn'' = Num 3"
  "LOG_LEVELS_at ''error'' = Num 4"
  "LOG_LEVELS_at ''_infinite'' = Infinity"
  by (simp_all add: LOG_LEVELS_at_def LOG_LEVELS_def)

lemma LOG_LEVELS_at_unknown:
  "l \<notin> set (map level_name [Trace, Debug, Info, Warn, Error, Sentinel]) \<Longrightarrow>
   LOG_LEVELS_at l = NaN"
  by (simp add: LOG_LEVELS_at_def LOG_LEVELS_def)


lemma silent_call: "Logger_silent L \<Longrightarrow> Logger_call m h L this args = Inr []"
  by (cases m) (simp_all add: method_defs)

lemma silent_replicants: "Logger_silent L \<Longrightarrow> Logger_replicants h L this args = Inr []"
  by (simp add: Logger_replicants_def)

text \<open>What a leveled call does, by whether its guards admit it and how the host dispatches.\<close>

lemma call_not_admitted: "\<not> admits L m \<Longrightarrow> Logger_call m h L this args = Inr []"
  by (cases m) (auto simp add: admits_def method_defs)

lemma call_fallback:
  "admits L m \<Longrightarrow> \<not> console_log_apply h \<Longrightarrow> Logger_call m h L this args = Inl TypeError"
  by (cases m) (simp_all add: admits_def method_defs invoke_fallback)

lemma sink_calls_admitted:
  "admits L m \<Longrightarrow> console_log_apply h \<Longrightarrow>
   sink_calls (effects_of (Logger_call m h L this args)) =
     [ConsoleApply (spec_channel m)
        ([JStr (''['' @ name this @ '']'')] @ args @ [JStr (caller_of (Error_stack h))])]"
  by (cases m) (simp_all add: admits_def method_defs invoke_variadic split: option.splits)



lemma admits_unknown:
  "Logger_level L \<notin> set (map level_name [Trace, Debug, Info, Warn, Error, Sentinel]) \<Longrightarrow>
   admits L m \<longleftrightarrow> \<not> Logger_silent L"
  by (simp add: admits_def LOG_LEVELS_at_unknown)

subsection \<open>Level filtering\<close>



subsection \<open>A level that the table does not hold\<close>

text \<open>
  C2, as stated, fails. Initialised with console output enabled and the level
  \<open>verbose\<close>, which is none of the five names, an \<open>info\<close> call is not suppressed:
  \<open>LOG_LEVELS['verbose']\<close> is \<open>undefined\<close>, and \<open>undefined > 2\<close> is false. On a console
  that dispatches variadically the call reaches \<open>console.info\<close>.
\<close>

theorem C2_unknown_level_counterexample:
  "''verbose'' \<notin> set [''trace'', ''debug'', ''info'', ''warn'', ''error''] \<and>
   \<not> Logger_silent (module_exports (Some (level_opts True ''verbose'')) None) \<and>
   Logger_level (module_exports (Some (level_opts True ''verbose'')) None) = ''verbose'' \<and>
   console_log_apply chrome_host \<and>
   sink_calls (effects_of (Logger_info chrome_host
      (module_exports (Some (level_opts True ''verbose'')) None) db_logger
      [JStr ''connected'']))
     = [ConsoleApply ''info'' [JStr ''[db]'', JStr ''connected'', JStr ''main (app.js:7:5)'']]"
  by (simp add: init_defs Logger_info_def run_defs)

text \<open>
  C2, amended. When the current level is a string that is not a key of the level table
  (none of the five names and not the sentinel key) and console output is enabled,
  no leveled call is suppressed: each of trace, debug, info, warn and error passes
  both guards and does exactly what it does under the threshold \<open>trace\<close>, which on
  a console that dispatches variadically is to invoke the sink.
\<close>

theorem C2_unknown_level_emits:
  assumes u: "Logger_level L \<notin> set (map level_name [Trace, Debug, Info, Warn, Error, Sentinel])"
    and on: "\<not> Logger_silent L"
  shows "admits L m \<and>
   Logger_call m h L this args \<noteq> Inr [] \<and>
   Logger_call m h L this args = Logger_call m h (L\<lparr>Logger_level := ''trace''\<rparr>) this args \<and>
   (console_log_apply h \<longrightarrow>
      sink_calls (effects_of (Logger_call m h L this args)) =
        [ConsoleApply (spec_channel m)
           ([JStr (''['' @ name this @ '']'')] @ args @ [JStr (caller_of (Error_stack h))])])"
proof -
  have a: "admits L m"
    using u on by (simp add: admits_unknown)
  have b: "Logger_call m h L this args \<noteq> Inr []"
    using on by (cases m) (simp_all add: method_defs LOG_LEVELS_at_unknown [OF u]
        Logger_invoke_def Let_def split: option.splits)
  have c: "Logger_call m h L this args
      = Logger_call m h (L\<lparr>Logger_level := ''trace''\<rparr>) this args"
    using on by (cases m) (simp_all add: method_defs LOG_LEVELS_at_unknown [OF u]
        LOG_LEVELS_at_own cong: sum.case_cong option.case_cong)
  show ?thesis
    using a b c sink_calls_admitted [OF a, of h this args] by simp
qed

theorem C2_unknown_level_emits_witness:
  "Logger_level (module_exports (Some (level_opts True ''verbose'')) None)
      \<notin> set (map level_name [Trace, Debug, Info, Warn, Error, Sentinel]) \<and>
   \<not> Logger_silent (module_exports (Some (level_opts True ''verbose'')) None) \<and>
   console_log_apply chrome_host \<and>
   sink_calls (effects_of (Logger_call M_trace chrome_host
      (module_exports (Some (level_opts True ''verbose'')) None) db_logger [JNum 0]))
     = [ConsoleApply ''info'' [JStr ''[db]'', JNum 0, JStr ''main (app.js:7:5)'']]"
proof -
  let ?L = "module_exports (Some (level_opts True ''verbose'')) None"
  have a: "Logger_level ?L \<notin> set (map level_name [Trace, Debug, Info, Warn, Error, Sentinel])"
    by (simp add: init_defs)
  have b: "\<not> Logger_silent ?L"
    by (simp add: init_defs)
  have c: "name db_logger = ''db''"
    by (simp add: db_logger_def)
  have d: "sink_calls (effects_of (Logger_call M_trace chrome_host ?L db_logger [JNum 0])) =
        [ConsoleApply (spec_channel M_trace)
           ([JStr (''['' @ name db_logger @ '']'')] @ [JNum 0]
              @ [JStr (caller_of (Error_stack chrome_host))])]"
    using chrome_apply
      C2_unknown_level_emits [OF a b, of M_trace chrome_host db_logger "[JNum 0]"]
    by blast
  show ?thesis
    using a b c d chrome_apply chrome_caller by simp
qed

subsection \<open>Replicant logging\<close>



subsection \<open>Reconfiguration\<close>

lemma configure_expand:
  "configure p L =
    (let L1 = (case opt_enabled p of None \<Rightarrow> L | Some e \<Rightarrow> L\<lparr>Logger_silent := \<not> e\<rparr>);
         L2 = (case opt_level p of None \<Rightarrow> L1 | Some l \<Rightarrow> L1\<lparr>Logger_level := l\<rparr>)
     in (case opt_replicants p of None \<Rightarrow> L2
         | Some b \<Rightarrow> L2\<lparr>Logger_shouldLogReplicants := b\<rparr>))"
  by (simp add: configure_def opt_enabled_def opt_level_def opt_replicants_def
      or_empty_opts_def or_empty_console_def split: option.splits)

text \<open>
  C4. Reconfiguration is a partial update. A field that the options value does not
  supply keeps its current value and a field that it supplies takes the supplied one;
  the Raven client is never touched. Reconfiguring with no value, with an empty object
  or with an empty \<open>console\<close> object changes nothing, and applying the same options
  twice is the same as applying them once.
\<close>

theorem C4_partial_update:
  "(opt_enabled p = None \<longrightarrow> Logger_silent (globalReconfigure p L) = Logger_silent L) \<and>
   (opt_level p = None \<longrightarrow> Logger_level (globalReconfigure p L) = Logger_level L) \<and>
   (opt_replicants p = None \<longrightarrow>
      Logger_shouldLogReplicants (globalReconfigure p L) = Logger_shouldLogReplicants L) \<and>
   (\<forall>e. opt_enabled p = Some e \<longrightarrow> Logger_silent (globalReconfigure p L) = (\<not> e)) \<and>
   (\<forall>l. opt_level p = Some l \<longrightarrow> Logger_level (globalReconfigure p L) = l) \<and>
   (\<forall>b. opt_replicants p = Some b \<longrightarrow>
      Logger_shouldLogReplicants (globalReconfigure p L) = b) \<and>
   Raven (globalReconfigure p L) = Raven L \<and>
   globalReconfigure None L = L \<and>
   globalReconfigure (Some \<lparr>console = None, replicants = None\<rparr>) L = L \<and>
   globalReconfigure
     (Some \<lparr>console = Some \<lparr>enabled = None, level = None\<rparr>, replicants = None\<rparr>) L = L \<and>
   globalReconfigure p (globalReconfigure p L) = globalReconfigure p L"
  unfolding globalReconfigure_def configure_expand
  by (simp add: opt_enabled_def opt_level_def opt_replicants_def split: option.splits)

theorem C4_partial_update_witness:
  "opt_enabled (Some \<lparr>console = None, replicants = Some True\<rparr>) = None \<and>
   opt_level (Some \<lparr>console = None, replicants = Some True\<rparr>) = None \<and>
   opt_replicants (Some \<lparr>console = None, replicants = Some True\<rparr>) = Some True \<and>
   globalReconfigure (Some \<lparr>console = None, replicants = Some True\<rparr>)
     (module_exports (Some (level_opts True ''warn'')) None)
   = \<lparr>Logger_level = ''warn'', Logger_silent = False,
        Logger_shouldLogReplicants = True, Raven = None\<rparr> \<and>
   opt_enabled (Some (level_opts False ''error'')) = Some False \<and>
   opt_level (Some (level_opts False ''error'')) = Some ''error'' \<and>
   opt_replicants (Some (level_opts False ''error'')) = None \<and>
   globalReconfigure (Some (level_opts False ''error''))
     (module_exports (Some replicant_opts) None)
   = \<lparr>Logger_level = ''error'', Logger_silent = True,
        Logger_shouldLogReplicants = True, Raven = None\<rparr>"
proof -
  let ?p = "Some \<lparr>console = None, replicants = Some True\<rparr>"
  let ?L = "module_exports (Some (level_opts True ''warn'')) None"
  let ?q = "Some (level_opts False ''error'')"
  let ?M = "module_exports (Some replicant_opts) None"
  have a: "opt_enabled ?p = None" "opt_level ?p = None" "opt_replicants ?p = Some True"
    by (simp_all add: opt_enabled_def opt_level_def opt_replicants_def)
  have b: "Logger_level ?L = ''warn''" "Logger_silent ?L = False" "Raven ?L = None"
    by (simp_all add: init_defs)
  note t = C4_partial_update [of ?p ?L]
  have c: "Logger_silent (globalReconfigure ?p ?L) = False"
    using t a(1) b(2) by simp
  have d: "Logger_level (globalReconfigure ?p ?L) = ''warn''"
    using t a(2) b(1) by simp
  have e: "Logger_shouldLogReplicants (globalReconfigure ?p ?L) = True"
    using t a(3) by blast
  have f: "Raven (globalReconfigure ?p ?L) = None"
    using t b(3) by simp
  have a': "opt_enabled ?q = Some False" "opt_level ?q = Some ''error''"
      "opt_replicants ?q = None"
    by (simp_all add: opt_enabled_def opt_level_def opt_replicants_def level_opts_def)
  have b': "Logger_shouldLogReplicants ?M = True" "Raven ?M = None"
    by (simp_all add: init_defs replicant_opts_def)
  note u = C4_partial_update [of ?q ?M]
  have c': "Logger_silent (globalReconfigure ?q ?M) = True"
    using u a'(1) by blast
  have d': "Logger_level (globalReconfigure ?q ?M) = ''error''"
    using u a'(2) by blast
  have e': "Logger_shouldLogReplicants (globalReconfigure ?q ?M) = True"
    using u a'(3) b'(1) by simp
  have f': "Raven (globalReconfigure ?q ?M) = None"
    using u b'(2) by simp
  have g: "globalReconfigure ?p ?L = \<lparr>Logger_level = ''warn'', Logger_silent = False,
        Logger_shouldLogReplicants = True, Raven = None\<rparr>"
    using c d e f by (cases "globalReconfigure ?p ?L") simp
  have g': "globalReconfigure ?q ?M = \<lparr>Logger_level = ''error'', Logger_silent = True,
        Logger_shouldLogReplicants = True, Raven = None\<rparr>"
    using c' d' e' f' by (cases "globalReconfigure ?q ?M") simp
  show ?thesis
    using a a' g g' by simp
qed

subsection \<open>Defaults\<close>

lemma module_exports_None:
  "module_exports None r =
     \<lparr>Logger_level = ''info'', Logger_silent = True,
      Logger_shouldLogReplicants = False, Raven = r\<rparr>"
  by (simp add: init_defs)

lemma silent_configure:
  "Logger_silent L \<Longrightarrow> opt_enabled p \<noteq> Some True \<Longrightarrow> Logger_silent (globalReconfigure p L)"
  unfolding globalReconfigure_def configure_expand
  by (auto split: option.splits)

lemma silent_foldl:
  "Logger_silent L \<Longrightarrow> \<forall>p \<in> set ps. opt_enabled p \<noteq> Some True \<Longrightarrow>
   Logger_silent (foldl (\<lambda>L p. globalReconfigure p L) L ps)"
  by (induction ps arbitrary: L) (simp_all add: silent_configure)

text \<open>
  C5. Initialised with no configuration (none at all, or an empty object), the shared
  state is the defaults: level \<open>info\<close>, console output disabled, replicant
  logging disabled. Every call, of any
  of the six methods, then returns without any effect, so makes no sink invocation,
  and that stays so after any sequence of reconfigurations none of which enables
  console output.
\<close>

theorem C5_defaults:
  "module_exports None r =
     \<lparr>Logger_level = ''info'', Logger_silent = True,
      Logger_shouldLogReplicants = False, Raven = r\<rparr> \<and>
   module_exports (Some \<lparr>console = None, replicants = None\<rparr>) r = module_exports None r \<and>
   Logger_call m h (module_exports None r) this args = Inr [] \<and>
   Logger_replicants h (module_exports None r) this args = Inr [] \<and>
   ((\<forall>p \<in> set ps. opt_enabled p \<noteq> Some True) \<longrightarrow>
      Logger_call m h (foldl (\<lambda>L p. globalReconfigure p L) (module_exports None r) ps)
        this args = Inr [] \<and>
      Logger_replicants h (foldl (\<lambda>L p. globalReconfigure p L) (module_exports None r) ps)
        this args = Inr [])"
proof -
  have s: "Logger_silent (module_exports None r)"
    by (simp add: module_exports_None)
  show ?thesis
    using s silent_foldl [OF s, of ps]
    by (simp add: silent_call silent_replicants module_exports_None)
       (simp add: init_defs)
qed

theorem C5_defaults_witness:
  "opt_enabled (Some \<lparr>console = None, replicants = Some True\<rparr>) \<noteq> Some True \<and>
   opt_enabled (Some \<lparr>console = Some \<lparr>enabled = None, level = Some ''trace''\<rparr>,
                      replicants = None\<rparr>) \<noteq> Some True \<and>
   Logger_call M_error chrome_host
     (foldl (\<lambda>L p. globalReconfigure p L) (module_exports None None)
        [Some \<lparr>console = None, replicants = Some True\<rparr>,
         Some \<lparr>console = Some \<lparr>enabled = None, level = Some ''trace''\<rparr>,
               replicants = None\<rparr>]) db_logger [JStr ''boom''] = Inr [] \<and>
   Logger_replicants chrome_host
     (foldl (\<lambda>L p. globalReconfigure p L) (module_exports None None)
        [Some \<lparr>console = None, replicants = Some True\<rparr>,
         Some \<lparr>console = Some \<lparr>enabled = None, level = Some ''trace''\<rparr>,
               replicants = None\<rparr>]) db_logger [JStr ''boom''] = Inr []"
proof -
  let ?ps = "[Some \<lparr>console = None, replicants = Some True\<rparr>,
         Some \<lparr>console = Some \<lparr>enabled = None, level = Some ''trace''\<rparr>,
               replicants = None\<rparr>]"
  have a: "\<forall>p \<in> set ?ps. opt_enabled p \<noteq> Some True"
    by (simp add: opt_enabled_def)
  have b: "Logger_call M_error chrome_host
     (foldl (\<lambda>L p. globalReconfigure p L) (module_exports None None) ?ps)
       db_logger [JStr ''boom''] = Inr [] \<and>
    Logger_replicants chrome_host
     (foldl (\<lambda>L p. globalReconfigure p L) (module_exports None None) ?ps)
       db_logger [JStr ''boom''] = Inr []"
    using a C5_defaults [of None M_error chrome_host db_logger "[JStr ''boom'']" ?ps]
    by blast
  show ?thesis
    using a b by simp
qed

subsection \<open>Channels\<close>

text \<open>
  C6. Every emission of a leveled call that reaches the sink is on the channel of its
  method: \<open>info\<close> for trace, debug and info, \<open>warn\<close> for warn, \<open>error\<close> for error.
  This holds on every host. And such an emission is made: a call that its guards
  admit, on a console that dispatches variadically, makes exactly one sink
  invocation, on that channel.
\<close>

theorem C6_channel_mapping:
  "(\<forall>e \<in> set (sink_calls (effects_of (Logger_call m h L this args))).
      channel_of e = Some (spec_channel m)) \<and>
   (admits L m \<longrightarrow> console_log_apply h \<longrightarrow>
      map channel_of (sink_calls (effects_of (Logger_call m h L this args)))
        = [Some (spec_channel m)])"
proof -
  have a: "map channel_of (sink_calls (effects_of (Logger_call m h L this args)))
        = [Some (spec_channel m)]" if "admits L m" "console_log_apply h"
    using that by (simp add: sink_calls_admitted)
  have b: "\<forall>e \<in> set (sink_calls (effects_of (Logger_call m h L this args))).
      channel_of e = Some (spec_channel m)"
  proof (cases "admits L m")
    case False
    then show ?thesis by (simp add: call_not_admitted)
  next
    case True
    show ?thesis
    proof (cases "console_log_apply h")
      case False
      with True show ?thesis by (simp add: call_fallback)
    next
      case yes: True
      with True show ?thesis by (simp add: sink_calls_admitted)
    qed
  qed
  show ?thesis using a b by blast
qed

theorem C6_channel_mapping_witness:
  "admits (module_exports (Some (level_opts True ''warn'')) None) M_error \<and>
   console_log_apply chrome_host \<and>
   map channel_of (sink_calls (effects_of (Logger_call M_error chrome_host
      (module_exports (Some (level_opts True ''warn'')) None) db_logger [JStr ''boom''])))
     = [Some ''error''] \<and>
   admits (module_exports (Some (level_opts True ''trace'')) None) M_debug \<and>
   map channel_of (sink_calls (effects_of (Logger_call M_debug chrome_host
      (module_exports (Some (level_opts True ''trace'')) None) db_logger [JStr ''tick''])))
     = [Some ''info'']"
proof -
  let ?L = "module_exports (Some (level_opts True ''warn'')) None"
  let ?M = "module_exports (Some (level_opts True ''trace'')) None"
  have a: "admits ?L M_error" "admits ?M M_debug"
    by (simp_all add: admits_def init_defs LOG_LEVELS_at_own)
  have b: "map channel_of (sink_calls (effects_of (Logger_call M_error chrome_host ?L
      db_logger [JStr ''boom'']))) = [Some (spec_channel M_error)]"
    using a chrome_apply
      C6_channel_mapping [of M_error chrome_host ?L db_logger "[JStr ''boom'']"]
    by blast
  have c: "map channel_of (sink_calls (effects_of (Logger_call M_debug chrome_host ?M
      db_logger [JStr ''tick'']))) = [Some (spec_channel M_debug)]"
    using a chrome_apply
      C6_channel_mapping [of M_debug chrome_host ?M db_logger "[JStr ''tick'']"]
    by blast
  show ?thesis
    using a b c chrome_apply by simp
qed

subsection \<open>The emitted sequence\<close>



subsection \<open>The caller line\<close>

lemma split_on_not_Nil [simp]: "split_on sep s \<noteq> []"
  by (induction s) (simp_all split: list.splits)

lemma join_Cons_Cons: "join sep ((c # l) # ls) = c # join sep (l # ls)"
  by (cases ls) simp_all

lemma join_split_on: "join sep (split_on sep s) = s"
proof (induction s)
  case Nil
  show ?case by simp
next
  case (Cons c cs)
  obtain l ls where sp: "split_on sep cs = l # ls"
    by (cases "split_on sep cs") simp_all
  show ?case
  proof (cases "c = sep")
    case True
    with Cons sp show ?thesis by simp
  next
    case False
    with Cons sp show ?thesis by (simp add: join_Cons_Cons)
  qed
qed

lemma split_on_no_sep: "l \<in> set (split_on sep s) \<Longrightarrow> sep \<notin> set l"
  by (induction s arbitrary: l) (auto split: if_splits list.splits)

lemma length_split_on: "length (split_on sep s) = Suc (count_list s sep)"
  by (induction s) (auto split: list.splits)

lemma dropWhile_replicate_append:
  "P x \<Longrightarrow> dropWhile P (replicate n x @ ys) = dropWhile P ys"
  by (induction n) simp_all

lemma replace_indented_strip:
  assumes "lit \<noteq> []" "hd lit \<noteq> CHR '' ''"
  shows "replace_indented lit (replicate n (CHR '' '') @ lit @ r) = r"
proof -
  have "dropWhile (\<lambda>c. c = CHR '' '') (lit @ r) = lit @ r"
    using assms by (cases lit) simp_all
  then show ?thesis
    by (simp add: replace_indented_def dropWhile_replicate_append)
qed

lemma replace_indented_keep:
  assumes "\<nexists>n r. s = replicate n (CHR '' '') @ lit @ r"
  shows "replace_indented lit s = s"
proof (rule ccontr)
  assume neq: "replace_indented lit s \<noteq> s"
  let ?P = "\<lambda>c. c = CHR '' ''"
  have t: "take (length lit) (dropWhile ?P s) = lit"
    using neq by (simp add: replace_indented_def Let_def split: if_splits)
  have "takeWhile ?P s = replicate (length (takeWhile ?P s)) (CHR '' '')"
    by (rule replicate_length_same [symmetric]) (auto dest: set_takeWhileD)
  moreover have "dropWhile ?P s = lit @ drop (length lit) (dropWhile ?P s)"
    using t append_take_drop_id [of "length lit" "dropWhile ?P s"] by simp
  ultimately have "s = replicate (length (takeWhile ?P s)) (CHR '' '') @ lit
      @ drop (length lit) (dropWhile ?P s)"
    using takeWhile_dropWhile_id [of ?P s] by metis
  with assms show False by blast
qed

lemma replace_indented_Nil: "lit \<noteq> [] \<Longrightarrow> replace_indented lit [] = []"
  by (simp add: replace_indented_def)

lemma not_indented:
  assumes "c \<noteq> CHR '' ''" "c \<noteq> hd lit" "lit \<noteq> []"
  shows "\<nexists>n r. c # cs = replicate n (CHR '' '') @ lit @ r"
proof
  assume "\<exists>n r. c # cs = replicate n (CHR '' '') @ lit @ r"
  then obtain n r where e: "c # cs = replicate n (CHR '' '') @ lit @ r" by blast
  show False
  proof (cases n)
    case 0
    with e assms show ?thesis by (cases lit) simp_all
  next
    case (Suc k)
    with e assms show ?thesis by simp
  qed
qed

text \<open>
  C8. The captured stack is split at line feeds: joining the pieces with line feeds
  gives the stack back, no piece holds a line feed, and there is one piece more than
  there are line feeds. If there are at least four pieces the fourth is selected,
  otherwise the empty string; an absent stack counts as empty. From the selected line
  first a leading \<open>at\<close> with its following space, then a leading \<open>@\<close>, each after any
  number of spaces, is removed, and a line without such a start is left as it is. The
  result is a string in every case: with fewer than four lines it is empty.
\<close>

theorem C8_caller_context:
  "join (CHR 0x0A) (split_on (CHR 0x0A) s) = s \<and>
   (\<forall>l \<in> set (split_on (CHR 0x0A) s). CHR 0x0A \<notin> set l) \<and>
   length (split_on (CHR 0x0A) s) = Suc (count_list s (CHR 0x0A)) \<and>
   caller_of (Some s) =
     replace_indented ''@'' (replace_indented ''at ''
       (if 4 \<le> length (split_on (CHR 0x0A) s) then split_on (CHR 0x0A) s ! 3 else [])) \<and>
   (length (split_on (CHR 0x0A) s) < 4 \<longrightarrow> caller_of (Some s) = []) \<and>
   caller_of None = [] \<and>
   replace_indented ''at '' (replicate n (CHR '' '') @ ''at '' @ r) = r \<and>
   replace_indented ''@'' (replicate n (CHR '' '') @ ''@'' @ r) = r \<and>
   ((\<nexists>n r. t = replicate n (CHR '' '') @ ''at '' @ r) \<longrightarrow> replace_indented ''at '' t = t) \<and>
   ((\<nexists>n r. t = replicate n (CHR '' '') @ ''@'' @ r) \<longrightarrow> replace_indented ''@'' t = t)"
proof -
  have a: "caller_of (Some s) =
     replace_indented ''@'' (replace_indented ''at ''
       (if 4 \<le> length (split_on (CHR 0x0A) s) then split_on (CHR 0x0A) s ! 3 else []))"
    by (simp add: caller_of_def Let_def)
  have b: "length (split_on (CHR 0x0A) s) < 4 \<longrightarrow> caller_of (Some s) = []"
    by (simp add: a replace_indented_Nil)
  have c: "caller_of None = []"
    by (simp add: caller_of_def replace_indented_Nil)
  have d: "replace_indented ''at '' (replicate n (CHR '' '') @ ''at '' @ r) = r"
    by (rule replace_indented_strip) simp_all
  have e: "replace_indented ''@'' (replicate n (CHR '' '') @ ''@'' @ r) = r"
    by (rule replace_indented_strip) simp_all
  show ?thesis
    using a b c d e join_split_on [of "CHR 0x0A" s] split_on_no_sep [of _ "CHR 0x0A" s]
      length_split_on [of "CHR 0x0A" s]
      replace_indented_keep [of t "''at ''"] replace_indented_keep [of t "''@''"]
    by blast
qed

theorem C8_caller_context_witness:
  "caller_of (Some chrome_stack) = ''main (app.js:7:5)'' \<and>
   caller_of (Some firefox_stack) = ''app.js:30:1'' \<and>
   length (split_on (CHR 0x0A) ''Error'') < 4 \<and>
   caller_of (Some ''Error'') = [] \<and>
   ''@app.js:30:1'' \<in> set (split_on (CHR 0x0A) firefox_stack) \<and>
   CHR 0x0A \<notin> set ''@app.js:30:1'' \<and>
   (\<nexists>n r. ''main (app.js:7:5)'' = replicate n (CHR '' '') @ ''at '' @ r) \<and>
   (\<nexists>n r. ''main (app.js:7:5)'' = replicate n (CHR '' '') @ ''@'' @ r) \<and>
   replace_indented ''@'' (replace_indented ''at '' ''main (app.js:7:5)'') = ''main (app.js:7:5)''"
proof -
  have a: "length (split_on (CHR 0x0A) ''Error'') < 4"
    by simp
  have b: "\<nexists>n r. ''main (app.js:7:5)'' = replicate n (CHR '' '') @ ''at '' @ r"
    by (rule not_indented) simp_all
  have c: "\<nexists>n r. ''main (app.js:7:5)'' = replicate n (CHR '' '') @ ''@'' @ r"
    by (rule not_indented) simp_all
  have d: "caller_of (Some chrome_stack) = ''main (app.js:7:5)''"
    using C8_caller_context [of chrome_stack]
    by (simp add: chrome_stack_def replace_indented_def)
  have e: "caller_of (Some firefox_stack) = ''app.js:30:1''"
    using C8_caller_context [of firefox_stack]
    by (simp add: firefox_stack_def replace_indented_def)
  have f: "''@app.js:30:1'' \<in> set (split_on (CHR 0x0A) firefox_stack)"
    by (simp add: firefox_stack_def)
  show ?thesis
    using a b c d e f C8_caller_context [of "''Error''" _ _ "''main (app.js:7:5)''"]
      C8_caller_context [of firefox_stack]
    by simp
qed

subsection \<open>Escalation to Raven\<close>



text \<open>
  C10. In an error call Raven is called only if the console is called too: whatever
  suppresses the console call, be it disabled console output or a level whose rank is
  above that of error (the sentinel), makes the whole call do nothing, so an error
  call never escalates without emitting.
\<close>

theorem C10_escalation_implies_emission:
  "(captures (effects_of (Logger_error h L this args)) \<noteq> [] \<longrightarrow>
      sink_calls (effects_of (Logger_error h L this args)) \<noteq> []) \<and>
   (sink_calls (effects_of (Logger_error h L this args)) = [] \<longrightarrow>
      effects_of (Logger_error h L this args) = []) \<and>
   (Logger_silent L \<or> gt (LOG_LEVELS_at (Logger_level L)) (LOG_LEVELS_at ''error'') \<longrightarrow>
      Logger_error h L this args = Inr []) \<and>
   (Logger_level L = level_name Sentinel \<longrightarrow> Logger_error h L this args = Inr [])"
  by (simp add: Logger_error_def LOG_LEVELS_at_own Logger_invoke_def Let_def
      split: option.splits)

theorem C10_escalation_implies_emission_witness:
  "captures (effects_of (Logger_error chrome_host
      (module_exports (Some (level_opts True ''info'')) (Some 7)) db_logger [])) \<noteq> [] \<and>
   sink_calls (effects_of (Logger_error chrome_host
      (module_exports (Some (level_opts True ''info'')) (Some 7)) db_logger [])) \<noteq> [] \<and>
   Logger_silent (module_exports (Some (level_opts False ''trace'')) (Some 7)) \<and>
   Logger_error chrome_host
      (module_exports (Some (level_opts False ''trace'')) (Some 7)) db_logger [] = Inr [] \<and>
   Logger_level (module_exports (Some (level_opts True ''_infinite'')) (Some 7))
      = level_name Sentinel \<and>
   Logger_error chrome_host
      (module_exports (Some (level_opts True ''_infinite'')) (Some 7)) db_logger [] = Inr []"
proof -
  let ?L = "module_exports (Some (level_opts True ''info'')) (Some 7)"
  let ?M = "module_exports (Some (level_opts False ''trace'')) (Some 7)"
  let ?N = "module_exports (Some (level_opts True ''_infinite'')) (Some 7)"
  have a: "captures (effects_of (Logger_error chrome_host ?L db_logger [])) \<noteq> []"
    by (simp add: init_defs Logger_error_def LOG_LEVELS_at_own invoke_variadic chrome_apply)
  have b: "Logger_silent ?M"
    by (simp add: init_defs)
  have c: "Logger_level ?N = level_name Sentinel"
    by (simp add: init_defs)
  have d: "sink_calls (effects_of (Logger_error chrome_host ?L db_logger [])) \<noteq> []"
    using a C10_escalation_implies_emission [of chrome_host ?L db_logger "[]"]
    by blast
  have e: "Logger_error chrome_host ?M db_logger [] = Inr []"
    using b C10_escalation_implies_emission [of chrome_host ?M db_logger "[]"]
    by blast
  have f: "Logger_error chrome_host ?N db_logger [] = Inr []"
    using c C10_escalation_implies_emission [of chrome_host ?N db_logger "[]"]
    by blast
  show ?thesis
    using a b c d e f by simp
qed

end
